theory Spec2Isabelle
  imports Complex_Main "HOL-Library.Signed_Division" "HOL-Library.AList"
begin

section \<open>Proposal state: the stake deltas of \<open>Proposal.state\<close>\<close>

text \<open>
  \<open>Proposal.state\<close> maps the item returned by the subgraph query to an
  \<open>IProposalState\<close> with the function \<open>itemMap\<close>. The model keeps the parts of the item
  that decide whether \<open>itemMap\<close> returns and what it computes for the two stake deltas;
  the remaining fields are copied from the item one by one and are left out.

  Values of the library \<open>bn.js\<close> (\<open>BN\<close>) are unbounded integers: \<open>mul\<close> and \<open>sub\<close> are
  \<open>*\<close> and \<open>-\<close> on \<open>int\<close>, \<open>div\<close> rounds towards zero and fails on a zero divisor, and
  the constructor takes a JavaScript number only when its size is below \<open>2^53\<close>. A
  JavaScript number is modelled by the rational number it denotes; the only
  floating-point operation of the code, the multiplication of the threshold by the power
  of two \<open>PRECISION\<close>, is exact on such numbers.
\<close>

datatype IProposalStage =
  ExpiredInQueue | Executed | Queued | PreBoosted | Boosted | QuietEndingPeriod

datatype IProposalType =
  ContributionReward | GenericScheme
  | SchemeRegistrarAdd | SchemeRegistrarEdit | SchemeRegistrarRemove

datatype itemMap_error =
  UnknownProposalType
  | SchemeRegistrarWithoutScheme
  | BN_AssertionFailed

text \<open>
  \<open>IProposalStage[item.stage]\<close>: the member named by the string. For any other string
  the lookup gives a value that is \<open>===\<close> to no member of the enum (\<open>undefined\<close>, or for
  the keys \<open>"0"\<close> to \<open>"5"\<close> a member's name); all of these are \<open>None\<close>.
\<close>

definition IProposalStage_lookup :: "string \<Rightarrow> IProposalStage option" where
  "IProposalStage_lookup name =
     (if name = ''ExpiredInQueue'' then Some ExpiredInQueue
      else if name = ''Executed'' then Some Executed
      else if name = ''Queued'' then Some Queued
      else if name = ''PreBoosted'' then Some PreBoosted
      else if name = ''Boosted'' then Some Boosted
      else if name = ''QuietEndingPeriod'' then Some QuietEndingPeriod
      else None)"

text \<open>The sign and the integer part of a number.\<close>

definition integer_part :: "rat \<Rightarrow> int" where
  "integer_part x = (if x < 0 then - \<lfloor>- x\<rfloor> else \<lfloor>x\<rfloor>)"

text \<open>
  \<open>new BN(x)\<close> for a JavaScript number \<open>x\<close>: \<open>bn.js\<close> takes the sign off, asserts that
  what is left is below \<open>2^53\<close> (\<open>assert(number < 0x20000000000000)\<close>), and keeps the
  integer part.
\<close>

definition BN_of_number :: "rat \<Rightarrow> itemMap_error + int" where
  "BN_of_number x =
     (if \<bar>x\<bar> < 2 ^ 53 then Inr (integer_part x) else Inl BN_AssertionFailed)"

text \<open>\<open>a.div(b)\<close>: the quotient rounded towards zero; \<open>bn.js\<close> asserts \<open>b \<noteq> 0\<close>.\<close>

definition BN_div :: "int \<Rightarrow> int \<Rightarrow> itemMap_error + int" where
  "BN_div a b = (if b = 0 then Inl BN_AssertionFailed else Inr (a sdiv b))"

text \<open>\<open>const PRECISION = Math.pow(2, 40)\<close>, a JavaScript number.\<close>

definition PRECISION :: rat where
  "PRECISION = 2 ^ 40"

text \<open>JavaScript truthiness of a string field that may be absent.\<close>

definition truthy :: "string option \<Rightarrow> bool" where
  "truthy v = (case v of None \<Rightarrow> False | Some s \<Rightarrow> s \<noteq> [])"

text \<open>
  \<open>item.schemeRegistrar\<close>, when present. \<open>registeredInDao\<close> is the outcome of the test
  whether the lower-cased addresses of \<open>item.dao.schemes\<close> include the lower-cased
  \<open>schemeToRegister\<close>.
\<close>

record schemeRegistrar_item =
  schemeToRegister :: "string option"
  schemeToRemove :: "string option"
  registeredInDao :: bool

text \<open>
  The item: \<open>item_contributionReward\<close> and \<open>item_genericScheme\<close> say whether these
  sub-records are present, \<open>item_threshold\<close> is the number
  \<open>realMathToNumber(new BN(item.gpQueue.threshold))\<close> (\<open>realMathToNumber\<close> belongs to
  \<open>utils\<close>, its result is taken as given), and the stakes are the values of
  \<open>new BN(item.stakesFor)\<close> and \<open>new BN(item.stakesAgainst)\<close>.
\<close>

record proposal_item =
  item_contributionReward :: bool
  item_genericScheme :: bool
  item_schemeRegistrar :: "schemeRegistrar_item option"
  item_stage :: string
  item_threshold :: rat
  item_stakesFor :: int
  item_stakesAgainst :: int

record proposal_state =
  proposalType :: IProposalType
  stage :: "IProposalStage option"
  threshold :: rat
  stakesFor :: int
  stakesAgainst :: int
  upstakeNeededToPreBoost :: int
  downStakeNeededToQueue :: int

text \<open>The chain of tests on the optional sub-records that fixes the proposal's type.\<close>

definition proposal_type :: "proposal_item \<Rightarrow> itemMap_error + IProposalType" where
  "proposal_type item =
     (if item_contributionReward item then Inr ContributionReward
      else if item_genericScheme item then Inr GenericScheme
      else case item_schemeRegistrar item of
        None \<Rightarrow> Inl UnknownProposalType
      | Some sr \<Rightarrow>
          if truthy (schemeToRegister sr)
          then (if registeredInDao sr then Inr SchemeRegistrarEdit
                else Inr SchemeRegistrarAdd)
          else if truthy (schemeToRemove sr) then Inr SchemeRegistrarRemove
          else Inl SchemeRegistrarWithoutScheme)"

text \<open>
  \<open>let upstakeNeededToPreBoost = new BN(0)\<close>, replaced for a \<open>Queued\<close> proposal by
  \<open>new BN(threshold * PRECISION).mul(stakesAgainst).div(new BN(PRECISION)).sub(stakesFor)\<close>.
\<close>

definition upstake_delta ::
  "IProposalStage option \<Rightarrow> rat \<Rightarrow> int \<Rightarrow> int \<Rightarrow> itemMap_error + int" where
  "upstake_delta stg thr sFor sAgainst =
     (if stg = Some Queued
      then (case BN_of_number (thr * PRECISION) of
              Inl e \<Rightarrow> Inl e
            | Inr tp \<Rightarrow>
                (case BN_of_number PRECISION of
                   Inl e \<Rightarrow> Inl e
                 | Inr p \<Rightarrow>
                     (case BN_div (tp * sAgainst) p of
                        Inl e \<Rightarrow> Inl e
                      | Inr q \<Rightarrow> Inr (q - sFor))))
      else Inr 0)"

text \<open>
  \<open>let downStakeNeededToQueue = new BN(0)\<close>, replaced for a \<open>PreBoosted\<close> proposal by
  \<open>stakesFor.mul(new BN(PRECISION)).div(new BN(threshold * PRECISION)).sub(stakesAgainst)\<close>.
\<close>

definition downstake_delta ::
  "IProposalStage option \<Rightarrow> rat \<Rightarrow> int \<Rightarrow> int \<Rightarrow> itemMap_error + int" where
  "downstake_delta stg thr sFor sAgainst =
     (if stg = Some PreBoosted
      then (case BN_of_number PRECISION of
              Inl e \<Rightarrow> Inl e
            | Inr p \<Rightarrow>
                (case BN_of_number (thr * PRECISION) of
                   Inl e \<Rightarrow> Inl e
                 | Inr tp \<Rightarrow>
                     (case BN_div (sFor * p) tp of
                        Inl e \<Rightarrow> Inl e
                      | Inr q \<Rightarrow> Inr (q - sAgainst))))
      else Inr 0)"

text \<open>
  \<open>itemMap\<close>: \<open>null\<close> for a \<open>null\<close> item; otherwise the type is determined first (and may
  throw), then the two deltas are computed in the order of the source.
\<close>

definition itemMap :: "proposal_item option \<Rightarrow> itemMap_error + proposal_state option" where
  "itemMap it =
     (case it of
        None \<Rightarrow> Inr None
      | Some item \<Rightarrow>
          (case proposal_type item of
             Inl e \<Rightarrow> Inl e
           | Inr ty \<Rightarrow>
               (let stg = IProposalStage_lookup (item_stage item);
                    thr = item_threshold item;
                    sFor = item_stakesFor item;
                    sAgainst = item_stakesAgainst item
                in case upstake_delta stg thr sFor sAgainst of
                     Inl e \<Rightarrow> Inl e
                   | Inr up \<Rightarrow>
                       (case downstake_delta stg thr sFor sAgainst of
                          Inl e \<Rightarrow> Inl e
                        | Inr down \<Rightarrow>
                            Inr (Some \<lparr>proposalType = ty, stage = stg, threshold = thr,
                                       stakesFor = sFor, stakesAgainst = sAgainst,
                                       upstakeNeededToPreBoost = up,
                                       downStakeNeededToQueue = down\<rparr>)))))"

section \<open>Token: the constructor\<close>

text \<open>
  A value passed as the \<open>address\<close> argument. The parameter is typed as a string, but the
  constructor's test \<open>!address\<close> also answers for \<open>undefined\<close> and \<open>null\<close>.
\<close>

datatype js_address = Undefined | Null | Str string

definition falsy :: "js_address \<Rightarrow> bool" where
  "falsy a = (case a of Undefined \<Rightarrow> True | Null \<Rightarrow> True | Str s \<Rightarrow> s = [])"

record 'c Token =
  address :: string
  token_context :: 'c

datatype 'e Token_error = NoAddressProvided | IsAddressThrew 'e

text \<open>
  \<open>isAddress\<close> is imported from \<open>utils\<close> and is a parameter here: \<open>Some e\<close> when the call
  throws \<open>e\<close>, \<open>None\<close> when it returns (the constructor drops what it returns).
\<close>

definition Token_constructor ::
  "(string \<Rightarrow> 'e option) \<Rightarrow> js_address \<Rightarrow> 'c \<Rightarrow> 'e Token_error + 'c Token" where
  "Token_constructor isAddress a ctx =
     (case a of
        Undefined \<Rightarrow> Inl NoAddressProvided
      | Null \<Rightarrow> Inl NoAddressProvided
      | Str s \<Rightarrow>
          if s = [] then Inl NoAddressProvided
          else (case isAddress s of
                  Some e \<Rightarrow> Inl (IsAddressThrew e)
                | None \<Rightarrow> Inr \<lparr>address = s, token_context = ctx\<rparr>))"

section \<open>Operations of a proposal: result mappers and error handlers\<close>

datatype IProposalOutcome = OutcomeNone | Pass | Fail

text \<open>
  A web3 receipt: its named events, each with its \<open>returnValues\<close>, in the order of the
  keys of \<open>receipt.events\<close>.
\<close>

type_synonym web3_event = "(string \<times> string) list"

record receipt =
  events :: "(string \<times> web3_event) list"

record Stake =
  stake_id :: "string option"
  staker :: "string option"
  createdAt :: "int option"
  outcome :: IProposalOutcome
  amount :: "string option"
  proposalId :: string

text \<open>The \<open>Error\<close> a failed transaction raises, with its message.\<close>

datatype tx_error = TxError string

text \<open>
  What the mappers throw and the error handlers return: an \<open>Error\<close> built from one of the
  message templates of the source and the values put into it, or the error that was
  passed in (\<open>Original\<close>).
\<close>

datatype op_error =
  Original tx_error
  | NoStakeEvent "string list"
  | Vote_UnknownProposal string
  | Vote_AlreadyExecuted string
  | Stake_UnknownProposal string
  | Stake_InsufficientBalance string int int
  | Stake_InsufficientAllowance int int

text \<open>The \<open>map\<close> of \<open>Proposal.stake\<close>: it throws when the receipt has no \<open>Stake\<close> event.\<close>

definition stake_map :: "string \<Rightarrow> IProposalOutcome \<Rightarrow> receipt \<Rightarrow> op_error + Stake" where
  "stake_map pid oc r =
     (case map_of (events r) ''Stake'' of
        None \<Rightarrow> Inl (NoStakeEvent (map fst (events r)))
      | Some ev \<Rightarrow>
          Inr \<lparr>stake_id = None, staker = map_of ev ''_staker'', createdAt = None,
               outcome = oc, amount = map_of ev ''_reputation'', proposalId = pid\<rparr>)"

text \<open>The \<open>map\<close> of \<open>Proposal.execute\<close>: both branches return the receipt.\<close>

definition execute_map :: "receipt \<Rightarrow> op_error + receipt" where
  "execute_map r = (if length (map fst (events r)) = 0 then Inr r else Inr r)"

text \<open>\<open>message.match(/revert/)\<close>: the message contains the literal \<open>revert\<close>.\<close>

fun match_literal :: "string \<Rightarrow> string \<Rightarrow> bool" where
  "match_literal pat [] = (pat = [])"
| "match_literal pat (c # cs) = (take (length pat) (c # cs) = pat \<or> match_literal pat cs)"

definition NULL_ADDRESS :: string where
  "NULL_ADDRESS = ''0x0000000000000000000000000000000000000000''"

text \<open>
  The answers of the reads an error handler makes: the proposal data of the voting
  machine (\<open>proposals(id).call()\<close>), the default account, and its balance and allowance
  in the staking token. The reads themselves are taken to succeed.
\<close>

record chain_reads =
  proposer :: string
  proposal_state :: string
  defaultAccount :: string
  balanceOf :: int
  allowanceOf :: int

definition vote_errorHandler :: "string \<Rightarrow> chain_reads \<Rightarrow> tx_error \<Rightarrow> op_error" where
  "vote_errorHandler pid ch err =
     (case err of TxError msg \<Rightarrow>
        if match_literal ''revert'' msg
        then (if proposer ch = NULL_ADDRESS then Vote_UnknownProposal pid
              else if proposal_state ch = ''2'' then Vote_AlreadyExecuted pid
              else Original err)
        else Original err)"

definition stake_errorHandler :: "string \<Rightarrow> int \<Rightarrow> chain_reads \<Rightarrow> tx_error \<Rightarrow> op_error" where
  "stake_errorHandler pid amt ch err =
     (case err of TxError msg \<Rightarrow>
        if match_literal ''revert'' msg
        then (if proposer ch = NULL_ADDRESS then Stake_UnknownProposal pid
              else if balanceOf ch < amt
              then Stake_InsufficientBalance (defaultAccount ch) amt (balanceOf ch)
              else if allowanceOf ch < amt then Stake_InsufficientAllowance amt (allowanceOf ch)
              else Original err)
        else Original err)"


section \<open>Arc: the accounts observed by \<open>ethBalance\<close>\<close>

text \<open>
  \<open>Arc.ethBalance\<close> keeps one record per observed account in \<open>observedAccounts\<close> and one
  subscription to the new block headers in \<open>blockHeaderSubscription\<close>. The state of the
  model is these two fields together with what lies outside the class and is needed to
  say what callers observe: the subscribers that \<open>rxjs\<close> has created, each with the
  notifications it was handed, and the number of block header subscriptions that are
  open at the provider.

  The contract of \<open>rxjs\<close> that the code relies on: \<open>Observable.create(f)\<close> builds a cold
  observable, so every \<open>subscribe\<close> runs \<open>f\<close> with a subscriber of its own; a subscriber
  that was unsubscribed, or that was handed an error, is closed, drops what it is handed
  from then on, and its teardown (the function \<open>f\<close> returned) runs once, when it closes.
  Listeners only take note of what they are handed. The reads (\<open>getBalance\<close>) succeed:
  the reads of a tick are answered within the tick, in the order of the accounts, and
  the answer of the seed read that a subscription starts is an operation of its own,
  \<open>seed_read\<close>.
\<close>

type_synonym account = string

datatype notification = Next int | Error string

record accInfo =
  observable :: bool
  observer :: "nat option"
  lastBalance :: "int option"
  subscriptionsCount :: int

record subscriber =
  owner :: account
  received :: "notification list"
  closed :: bool

record arc =
  observedAccounts :: "(account \<times> accInfo) list"
  blockHeaderSubscription :: bool
  subscribers :: "subscriber list"
  web3_subscriptions :: nat

definition init :: arc where
  "init = \<lparr>observedAccounts = [], blockHeaderSubscription = False, subscribers = [],
            web3_subscriptions = 0\<rparr>"

datatype js_exn = TypeError

datatype outcome = Done arc | Threw js_exn arc

fun state_of :: "outcome \<Rightarrow> arc" where
  "state_of (Done s) = s"
| "state_of (Threw e s) = s"

text \<open>
  The part of \<open>ethBalance(owner)\<close> that runs at the call: a record with count 1 is made
  for a new account; a record that has its observable counts one more subscription and
  the observable is handed out again; otherwise the observable is made and stored. The
  observable is known by its \<open>owner\<close>.
\<close>

definition ethBalance :: "account \<Rightarrow> arc \<Rightarrow> arc" where
  "ethBalance ownr s =
     (let accs = (case map_of (observedAccounts s) ownr of
                    None \<Rightarrow> observedAccounts s @
                      [(ownr, \<lparr>observable = False, observer = None, lastBalance = None,
                                subscriptionsCount = 1\<rparr>)]
                  | Some _ \<Rightarrow> observedAccounts s)
      in case map_of accs ownr of
           None \<Rightarrow> s
         | Some acc \<Rightarrow>
             if observable acc
             then s\<lparr>observedAccounts :=
                      AList.update ownr
                        (acc\<lparr>subscriptionsCount := subscriptionsCount acc + 1\<rparr>) accs\<rparr>
             else s\<lparr>observedAccounts := AList.update ownr (acc\<lparr>observable := True\<rparr>) accs\<rparr>)"

text \<open>\<open>observer.next(v)\<close> on the subscriber \<open>h\<close>.\<close>

definition next_to :: "nat \<Rightarrow> int \<Rightarrow> arc \<Rightarrow> arc" where
  "next_to h v s =
     (if h < length (subscribers s) \<and> \<not> closed (subscribers s ! h)
      then s\<lparr>subscribers := (subscribers s)
                [h := (subscribers s ! h)\<lparr>received := received (subscribers s ! h) @ [Next v]\<rparr>]\<rparr>
      else s)"

text \<open>
  Subscribing to the observable of \<open>owner\<close> runs the function given to
  \<open>Observable.create\<close> with a new subscriber: the subscriber is stored in the record's
  \<open>observer\<close>, the seed read is started (\<open>seed_read\<close> is its answer), and the block header
  subscription is made if there is none. The result is the handle of the subscription
  and the new state. Without a record for \<open>owner\<close> the function fails on its first
  statement, and \<open>rxjs\<close> hands the failure to the new subscriber.
\<close>

definition subscribe :: "account \<Rightarrow> arc \<Rightarrow> nat \<times> arc" where
  "subscribe ownr s =
     (let h = length (subscribers s)
      in case map_of (observedAccounts s) ownr of
           None \<Rightarrow>
             (h, s\<lparr>subscribers := subscribers s @
                     [\<lparr>owner = ownr, received = [Error ''TypeError''], closed = True\<rparr>]\<rparr>)
         | Some acc \<Rightarrow>
             (let s1 = s\<lparr>subscribers := subscribers s @
                            [\<lparr>owner = ownr, received = [], closed = False\<rparr>],
                          observedAccounts :=
                            AList.update ownr (acc\<lparr>observer := Some h\<rparr>) (observedAccounts s)\<rparr>
              in (h, if \<not> blockHeaderSubscription s1
                     then s1\<lparr>blockHeaderSubscription := True,
                              web3_subscriptions := web3_subscriptions s1 + 1\<rparr>
                     else s1)))"

text \<open>
  The answer \<open>currentBalance\<close> of the seed read: it is handed to the observer of the
  record that \<open>owner\<close> has at that time and stored as \<open>lastBalance\<close>. Without such a record
  or observer the callback fails inside the promise and changes nothing.
\<close>

definition seed_read :: "account \<Rightarrow> int \<Rightarrow> arc \<Rightarrow> arc" where
  "seed_read ownr currentBalance s =
     (case map_of (observedAccounts s) ownr of
        None \<Rightarrow> s
      | Some acc \<Rightarrow>
          (case observer acc of
             None \<Rightarrow> s
           | Some h \<Rightarrow>
               (next_to h currentBalance s)
                 \<lparr>observedAccounts :=
                    AList.update ownr (acc\<lparr>lastBalance := Some currentBalance\<rparr>)
                      (observedAccounts s)\<rparr>))"

text \<open>
  The teardown that the function given to \<open>Observable.create\<close> returns: the count of the
  record of \<open>owner\<close> goes down by one, the record is deleted at zero, and when no record
  is left the block header subscription is unsubscribed and forgotten.
\<close>

definition teardown :: "account \<Rightarrow> arc \<Rightarrow> outcome" where
  "teardown ownr s =
     (case map_of (observedAccounts s) ownr of
        None \<Rightarrow> Threw TypeError s
      | Some acc \<Rightarrow>
          (let acc' = acc\<lparr>subscriptionsCount := subscriptionsCount acc - 1\<rparr>;
               accs = (if subscriptionsCount acc' \<le> 0
                       then AList.delete ownr (observedAccounts s)
                       else AList.update ownr acc' (observedAccounts s));
               s1 = s\<lparr>observedAccounts := accs\<rparr>
           in Done (if length (map fst accs) = 0 \<and> blockHeaderSubscription s1
                    then s1\<lparr>blockHeaderSubscription := False,
                             web3_subscriptions := web3_subscriptions s1 - 1\<rparr>
                    else s1)))"

text \<open>\<open>subscription.unsubscribe()\<close> on the handle \<open>h\<close>: the cancel of a caller.\<close>

definition unsubscribe :: "nat \<Rightarrow> arc \<Rightarrow> outcome" where
  "unsubscribe h s =
     (if h < length (subscribers s) \<and> \<not> closed (subscribers s ! h)
      then teardown (owner (subscribers s ! h))
             (s\<lparr>subscribers := (subscribers s)[h := (subscribers s ! h)\<lparr>closed := True\<rparr>]\<rparr>)
      else Done s)"

text \<open>\<open>observer.error(err)\<close> on the subscriber \<open>h\<close>: the error is handed over, then the
  subscriber is unsubscribed.\<close>

definition error_to :: "nat \<Rightarrow> string \<Rightarrow> arc \<Rightarrow> outcome" where
  "error_to h err s =
     (if h < length (subscribers s) \<and> \<not> closed (subscribers s ! h)
      then unsubscribe h
             (s\<lparr>subscribers := (subscribers s)
                   [h := (subscribers s ! h)\<lparr>received := received (subscribers s ! h) @ [Error err]\<rparr>]\<rparr>)
      else Done s)"

text \<open>
  The callback of the block header subscription without an error, for one account of
  \<open>Object.keys(this.observedAccounts)\<close>: \<open>balance\<close> is the answer of \<open>getBalance(addr)\<close>.
\<close>

definition tick_key :: "account \<Rightarrow> int \<Rightarrow> arc \<Rightarrow> arc" where
  "tick_key addr balance s =
     (case map_of (observedAccounts s) addr of
        None \<Rightarrow> s
      | Some accInfo \<Rightarrow>
          if Some balance \<noteq> lastBalance accInfo
          then (case observer accInfo of
                  None \<Rightarrow> s
                | Some h \<Rightarrow>
                    (next_to h balance s)
                      \<lparr>observedAccounts :=
                         AList.update addr (accInfo\<lparr>lastBalance := Some balance\<rparr>)
                           (observedAccounts s)\<rparr>)
          else s)"

fun tick_keys :: "account list \<Rightarrow> (account \<Rightarrow> int) \<Rightarrow> arc \<Rightarrow> arc" where
  "tick_keys [] getBalance s = s"
| "tick_keys (addr # addrs) getBalance s = tick_keys addrs getBalance (tick_key addr (getBalance addr) s)"

definition tick :: "(account \<Rightarrow> int) \<Rightarrow> arc \<Rightarrow> arc" where
  "tick getBalance s = tick_keys (map fst (observedAccounts s)) getBalance s"

text \<open>A run of ticks in which the reads of every account answer \<open>v\<close>, for each \<open>v\<close> in turn.\<close>

fun ticks :: "int list \<Rightarrow> arc \<Rightarrow> arc" where
  "ticks [] s = s"
| "ticks (v # vs) s = ticks vs (tick (\<lambda>addr. v) s)"

text \<open>
  The callback of the block header subscription with an error: the observer of every
  account is handed the error. A record without an observer, or a teardown that throws,
  ends the loop with the exception.
\<close>

fun feed_error_keys :: "account list \<Rightarrow> string \<Rightarrow> arc \<Rightarrow> outcome" where
  "feed_error_keys [] err s = Done s"
| "feed_error_keys (addr # addrs) err s =
     (case map_of (observedAccounts s) addr of
        None \<Rightarrow> Threw TypeError s
      | Some accInfo \<Rightarrow>
          (case observer accInfo of
             None \<Rightarrow> Threw TypeError s
           | Some h \<Rightarrow>
               (case error_to h err s of
                  Threw e s' \<Rightarrow> Threw e s'
                | Done s' \<Rightarrow> feed_error_keys addrs err s')))"

definition feed_error :: "string \<Rightarrow> arc \<Rightarrow> outcome" where
  "feed_error err s = feed_error_keys (map fst (observedAccounts s)) err s"

text \<open>
  \<open>observe\<close> is what a caller does to watch an account, \<open>ethBalance(owner).subscribe(..)\<close>;
  \<open>observes n\<close> does it \<open>n\<close> times and collects the handles; \<open>cancels\<close> unsubscribes the
  handles of a list one after the other.
\<close>

definition observe :: "account \<Rightarrow> arc \<Rightarrow> nat \<times> arc" where
  "observe ownr s = subscribe ownr (ethBalance ownr s)"

fun observes :: "nat \<Rightarrow> account \<Rightarrow> arc \<Rightarrow> nat list \<times> arc" where
  "observes 0 ownr s = ([], s)"
| "observes (Suc n) ownr s =
     (case observe ownr s of (h, s1) \<Rightarrow>
        (case observes n ownr s1 of (hs, s2) \<Rightarrow> (h # hs, s2)))"

fun cancels :: "nat list \<Rightarrow> arc \<Rightarrow> outcome" where
  "cancels [] s = Done s"
| "cancels (h # hs) s =
     (case unsubscribe h s of
        Threw e s' \<Rightarrow> Threw e s'
      | Done s' \<Rightarrow> cancels hs s')"

text \<open>The operations on an \<open>Arc\<close>, and the states that sequences of them reach.\<close>

datatype event =
  EthBalance account
  | Subscribe account
  | SeedRead account int
  | Unsubscribe nat
  | Tick "account \<Rightarrow> int"
  | FeedError string

fun step :: "event \<Rightarrow> arc \<Rightarrow> arc" where
  "step (EthBalance a) s = ethBalance a s"
| "step (Subscribe a) s = snd (subscribe a s)"
| "step (SeedRead a v) s = seed_read a v s"
| "step (Unsubscribe h) s = state_of (unsubscribe h s)"
| "step (Tick getBalance) s = tick getBalance s"
| "step (FeedError err) s = state_of (feed_error err s)"

fun run :: "event list \<Rightarrow> arc \<Rightarrow> arc" where
  "run [] s = s"
| "run (e # es) s = run es (step e s)"

text \<open>
  At most one block header subscription is open at the provider, and it is open exactly
  when the field \<open>blockHeaderSubscription\<close> holds it; with no observed account there is
  none.
\<close>

definition feed_inv :: "arc \<Rightarrow> bool" where
  "feed_inv s =
     (web3_subscriptions s = (if blockHeaderSubscription s then 1 else 0)
      \<and> (observedAccounts s = [] \<longrightarrow> \<not> blockHeaderSubscription s))"


definition two_listeners :: arc where
  "two_listeners =
     seed_read ''0xa'' 1 (snd (observe ''0xa'' (seed_read ''0xa'' 1 (snd (observe ''0xa'' init)))))"

definition two_accounts :: arc where
  "two_accounts =
     seed_read ''0xb'' 2 (snd (observe ''0xb'' (seed_read ''0xa'' 1 (snd (observe ''0xa'' init)))))"

section \<open>Proofs: the stake deltas\<close>

lemma BN_of_number_PRECISION: "BN_of_number PRECISION = Inr (2 ^ 40)"
  by (simp add: BN_of_number_def integer_part_def PRECISION_def)

lemma BN_of_number_in_range:
  "\<bar>x\<bar> < 2 ^ 53 \<Longrightarrow> BN_of_number x = Inr (integer_part x)"
  by (simp add: BN_of_number_def)

lemma BN_of_number_out_of_range:
  "2 ^ 53 \<le> \<bar>x\<bar> \<Longrightarrow> BN_of_number x = Inl BN_AssertionFailed"
  by (simp add: BN_of_number_def)

lemma sdiv_nonneg: "0 \<le> a \<Longrightarrow> 0 \<le> b \<Longrightarrow> (a::int) sdiv b = a div b"
  by (cases "a = 0"; cases "b = 0") (simp_all add: signed_divide_int_def sgn_if)

lemma BN_of_number_threshold:
  "\<bar>thr * 2 ^ 40\<bar> < 2 ^ 53 \<Longrightarrow>
   BN_of_number (thr * PRECISION) = Inr (integer_part (thr * 2 ^ 40))"
  by (simp add: BN_of_number_def PRECISION_def)

lemma BN_of_number_threshold_out_of_range:
  "2 ^ 53 \<le> \<bar>thr * 2 ^ 40\<bar> \<Longrightarrow> BN_of_number (thr * PRECISION) = Inl BN_AssertionFailed"
  by (simp add: BN_of_number_def PRECISION_def)

lemma upstake_delta_Queued:
  "\<bar>thr * 2 ^ 40\<bar> < 2 ^ 53 \<Longrightarrow>
   upstake_delta (Some Queued) thr sFor sAgainst =
     Inr ((integer_part (thr * 2 ^ 40) * sAgainst) sdiv 2 ^ 40 - sFor)"
  by (simp add: upstake_delta_def BN_div_def BN_of_number_PRECISION BN_of_number_threshold)


lemma upstake_delta_other:
  "stg \<noteq> Some Queued \<Longrightarrow> upstake_delta stg thr sFor sAgainst = Inr 0"
  by (simp add: upstake_delta_def)


text \<open>With a threshold whose fixed-point form is zero the division of \<open>bn.js\<close> fails.\<close>

lemma downstake_delta_zero_divisor:
  assumes "integer_part (thr * 2 ^ 40) = 0"
  shows "downstake_delta (Some PreBoosted) thr sFor sAgainst = Inl BN_AssertionFailed"
proof (cases "\<bar>thr * 2 ^ 40\<bar> < 2 ^ 53")
  case True
  then show ?thesis
    using assms
    by (simp add: downstake_delta_def BN_div_def BN_of_number_PRECISION BN_of_number_threshold)
next
  case False
  then show ?thesis
    by (simp add: downstake_delta_def BN_of_number_PRECISION
        BN_of_number_threshold_out_of_range)
qed


lemma downstake_delta_other:
  "stg \<noteq> Some PreBoosted \<Longrightarrow> downstake_delta stg thr sFor sAgainst = Inr 0"
  by (simp add: downstake_delta_def)


lemma itemMap_SomeD:
  assumes "itemMap (Some item) = Inr (Some st)"
  shows "upstake_delta (IProposalStage_lookup (item_stage item)) (item_threshold item)
           (item_stakesFor item) (item_stakesAgainst item) = Inr (upstakeNeededToPreBoost st)
    \<and> downstake_delta (IProposalStage_lookup (item_stage item)) (item_threshold item)
           (item_stakesFor item) (item_stakesAgainst item) = Inr (downStakeNeededToQueue st)
    \<and> stage st = IProposalStage_lookup (item_stage item)"
  using assms by (auto simp add: itemMap_def Let_def split: sum.splits)

text \<open>
  On stakes and thresholds that are not negative the rounding of \<open>bn.js\<close> is the
  rounding down of \<open>div\<close>.
\<close>

lemma upstake_delta_Queued_nonneg:
  assumes "0 \<le> thr" and "thr * 2 ^ 40 < 2 ^ 53" and "0 \<le> sAgainst"
  shows "upstake_delta (Some Queued) thr sFor sAgainst =
     Inr ((\<lfloor>thr * 2 ^ 40\<rfloor> * sAgainst) div 2 ^ 40 - sFor)"
proof -
  have "integer_part (thr * 2 ^ 40) = \<lfloor>thr * 2 ^ 40\<rfloor>"
    using assms(1) by (simp add: integer_part_def)
  moreover have "0 \<le> \<lfloor>thr * 2 ^ 40\<rfloor>"
    using assms(1) by simp
  moreover have "\<bar>thr * 2 ^ 40\<bar> < 2 ^ 53"
    using assms(1,2) by simp
  ultimately show ?thesis
    using assms(3) by (simp add: upstake_delta_Queued sdiv_nonneg)
qed







text \<open>
  Claim C3. In the state that \<open>itemMap\<close> reports, \<open>upstakeNeededToPreBoost\<close> is zero
  whenever the stage is not \<open>Queued\<close>, and \<open>downStakeNeededToQueue\<close> is zero whenever the
  stage is not \<open>PreBoosted\<close>, whatever the stakes and the threshold are.
\<close>

theorem deltas_zero_in_other_stages:
  assumes "itemMap (Some item) = Inr (Some st)"
  shows "(stage st \<noteq> Some Queued \<longrightarrow> upstakeNeededToPreBoost st = 0)
    \<and> (stage st \<noteq> Some PreBoosted \<longrightarrow> downStakeNeededToQueue st = 0)"
  using itemMap_SomeD [OF assms]
  by (auto simp add: upstake_delta_other downstake_delta_other)

theorem deltas_zero_in_other_stages_witness:
  "itemMap (Some \<lparr>item_contributionReward = True, item_genericScheme = False,
       item_schemeRegistrar = None, item_stage = ''Boosted'', item_threshold = 3 / 2,
       item_stakesFor = 100, item_stakesAgainst = 150\<rparr>)
     = Inr (Some \<lparr>proposalType = ContributionReward, stage = Some Boosted, threshold = 3 / 2,
         stakesFor = 100, stakesAgainst = 150, upstakeNeededToPreBoost = 0,
         downStakeNeededToQueue = 0\<rparr>)
   \<and> Some Boosted \<noteq> Some Queued \<and> Some Boosted \<noteq> Some PreBoosted"
  using deltas_zero_in_other_stages [of "\<lparr>item_contributionReward = True,
       item_genericScheme = False, item_schemeRegistrar = None, item_stage = ''Boosted'',
       item_threshold = 3 / 2, item_stakesFor = 100, item_stakesAgainst = 150\<rparr>"
       "\<lparr>proposalType = ContributionReward, stage = Some Boosted, threshold = 3 / 2,
         stakesFor = 100, stakesAgainst = 150, upstakeNeededToPreBoost = 0,
         downStakeNeededToQueue = 0\<rparr>"]
  by (simp add: itemMap_def proposal_type_def IProposalStage_lookup_def upstake_delta_def
      downstake_delta_def)

section \<open>Proofs: the Token constructor\<close>

text \<open>
  Claim C10. For a falsy \<open>address\<close> (\<open>undefined\<close>, \<open>null\<close> or the empty string) the
  constructor throws and no Token is made; for a truthy one it calls \<open>isAddress\<close> on it
  before it returns: it throws what \<open>isAddress\<close> throws, and returns the Token otherwise.
\<close>

theorem Token_constructor_checks_address:
  "(falsy a \<longrightarrow> Token_constructor isAddress a ctx = Inl NoAddressProvided)
   \<and> (\<not> falsy a \<longrightarrow>
        (\<exists>s. a = Str s \<and> s \<noteq> [] \<and>
           Token_constructor isAddress a ctx =
             (case isAddress s of
                Some e \<Rightarrow> Inl (IsAddressThrew e)
              | None \<Rightarrow> Inr \<lparr>address = s, token_context = ctx\<rparr>)))"
  by (cases a) (simp_all add: falsy_def Token_constructor_def)

theorem Token_constructor_checks_address_witness:
  "falsy (Str []) \<and> falsy Undefined \<and> falsy Null
   \<and> Token_constructor (\<lambda>s. if length s = 42 then None else Some ''Not a valid address'')
        (Str []) () = Inl NoAddressProvided
   \<and> \<not> falsy (Str ''0xabc'')
   \<and> Token_constructor (\<lambda>s. if length s = 42 then None else Some ''Not a valid address'')
        (Str ''0xabc'') () = Inl (IsAddressThrew ''Not a valid address'')
   \<and> \<not> falsy (Str NULL_ADDRESS)
   \<and> Token_constructor (\<lambda>s. if length s = 42 then None else Some ''Not a valid address'')
        (Str NULL_ADDRESS) () = Inr \<lparr>address = NULL_ADDRESS, token_context = ()\<rparr>"
  using Token_constructor_checks_address
          [of "Str []" "\<lambda>s. if length s = 42 then None else Some ''Not a valid address''" "()"]
        Token_constructor_checks_address
          [of "Str ''0xabc''" "\<lambda>s. if length s = 42 then None else Some ''Not a valid address''" "()"]
        Token_constructor_checks_address
          [of "Str NULL_ADDRESS" "\<lambda>s. if length s = 42 then None else Some ''Not a valid address''" "()"]
  by (simp add: falsy_def NULL_ADDRESS_def)

section \<open>Proofs: result mappers and error handlers\<close>

text \<open>
  Claim C6. An error handler that classifies a revert looks at the existence of the
  proposal first: when the voting machine knows no proposer for the id, \<open>stake\<close> and
  \<open>vote\<close> answer with their unknown-proposal error whatever balance, allowance and
  proposal state are; and when the message is no revert, or no test finds a cause, the
  error that was passed in is returned as it is.
\<close>

theorem errorHandler_precedence:
  "(match_literal ''revert'' msg \<and> proposer ch = NULL_ADDRESS \<longrightarrow>
      stake_errorHandler pid amt ch (TxError msg) = Stake_UnknownProposal pid
      \<and> vote_errorHandler pid ch (TxError msg) = Vote_UnknownProposal pid)
   \<and> (\<not> match_literal ''revert'' msg \<longrightarrow>
      stake_errorHandler pid amt ch (TxError msg) = Original (TxError msg)
      \<and> vote_errorHandler pid ch (TxError msg) = Original (TxError msg))
   \<and> (proposer ch \<noteq> NULL_ADDRESS \<and> amt \<le> balanceOf ch \<and> amt \<le> allowanceOf ch \<longrightarrow>
      stake_errorHandler pid amt ch (TxError msg) = Original (TxError msg))
   \<and> (proposer ch \<noteq> NULL_ADDRESS \<and> proposal_state ch \<noteq> ''2'' \<longrightarrow>
      vote_errorHandler pid ch (TxError msg) = Original (TxError msg))"
  by (simp add: stake_errorHandler_def vote_errorHandler_def)

theorem errorHandler_precedence_witness:
  "match_literal ''revert'' ''VM Exception while processing transaction: revert''
   \<and> stake_errorHandler ''0x1'' 10
        \<lparr>proposer = NULL_ADDRESS, proposal_state = ''2'', defaultAccount = ''0xa'',
         balanceOf = 0, allowanceOf = 0\<rparr>
        (TxError ''VM Exception while processing transaction: revert'')
      = Stake_UnknownProposal ''0x1''
   \<and> vote_errorHandler ''0x1''
        \<lparr>proposer = NULL_ADDRESS, proposal_state = ''2'', defaultAccount = ''0xa'',
         balanceOf = 0, allowanceOf = 0\<rparr>
        (TxError ''VM Exception while processing transaction: revert'')
      = Vote_UnknownProposal ''0x1''
   \<and> \<not> match_literal ''revert'' ''out of gas''
   \<and> stake_errorHandler ''0x1'' 10
        \<lparr>proposer = NULL_ADDRESS, proposal_state = ''2'', defaultAccount = ''0xa'',
         balanceOf = 0, allowanceOf = 0\<rparr> (TxError ''out of gas'')
      = Original (TxError ''out of gas'')
   \<and> stake_errorHandler ''0x1'' 10
        \<lparr>proposer = ''0xb'', proposal_state = ''1'', defaultAccount = ''0xa'',
         balanceOf = 10, allowanceOf = 10\<rparr>
        (TxError ''VM Exception while processing transaction: revert'')
      = Original (TxError ''VM Exception while processing transaction: revert'')
   \<and> vote_errorHandler ''0x1''
        \<lparr>proposer = ''0xb'', proposal_state = ''1'', defaultAccount = ''0xa'',
         balanceOf = 10, allowanceOf = 10\<rparr>
        (TxError ''VM Exception while processing transaction: revert'')
      = Original (TxError ''VM Exception while processing transaction: revert'')"
  using errorHandler_precedence [of "''VM Exception while processing transaction: revert''"
          "\<lparr>proposer = NULL_ADDRESS, proposal_state = ''2'', defaultAccount = ''0xa'',
            balanceOf = 0, allowanceOf = 0\<rparr>" "''0x1''" 10]
        errorHandler_precedence [of "''out of gas''"
          "\<lparr>proposer = NULL_ADDRESS, proposal_state = ''2'', defaultAccount = ''0xa'',
            balanceOf = 0, allowanceOf = 0\<rparr>" "''0x1''" 10]
        errorHandler_precedence [of "''VM Exception while processing transaction: revert''"
          "\<lparr>proposer = ''0xb'', proposal_state = ''1'', defaultAccount = ''0xa'',
            balanceOf = 10, allowanceOf = 10\<rparr>" "''0x1''" 10]
  by (simp add: NULL_ADDRESS_def)

text \<open>
  Claim C7. On a receipt without the expected event the two mappers decide differently:
  the mapper of \<open>stake\<close> throws when the receipt has no \<open>Stake\<close> event, the mapper of
  \<open>execute\<close> returns the receipt, also when the receipt has no event at all.
\<close>

theorem mappers_on_missing_event:
  "(map_of (events r) ''Stake'' = None \<longrightarrow>
      stake_map pid oc r = Inl (NoStakeEvent (map fst (events r))))
   \<and> execute_map r = Inr r
   \<and> (events r = [] \<longrightarrow> stake_map pid oc r = Inl (NoStakeEvent []) \<and> execute_map r = Inr r)"
  by (simp add: stake_map_def execute_map_def)

theorem mappers_on_missing_event_witness:
  "map_of (events \<lparr>events = []\<rparr>) ''Stake'' = None
   \<and> events \<lparr>events = []\<rparr> = []
   \<and> stake_map ''0x1'' Pass \<lparr>events = []\<rparr> = Inl (NoStakeEvent [])
   \<and> execute_map \<lparr>events = []\<rparr> = Inr \<lparr>events = []\<rparr>"
  using mappers_on_missing_event [of "\<lparr>events = []\<rparr>" "''0x1''" Pass]
  by simp

section \<open>Proofs: the observed accounts\<close>

subsection \<open>The block header subscription\<close>

lemma next_to_fields:
  "observedAccounts (next_to h v s) = observedAccounts s"
  "blockHeaderSubscription (next_to h v s) = blockHeaderSubscription s"
  "web3_subscriptions (next_to h v s) = web3_subscriptions s"
  "length (subscribers (next_to h v s)) = length (subscribers s)"
  by (simp_all add: next_to_def)

lemma feed_inv_ethBalance: "feed_inv s \<Longrightarrow> feed_inv (ethBalance a s)"
  by (auto simp add: feed_inv_def ethBalance_def Let_def split: option.splits)

lemma feed_inv_subscribe: "feed_inv s \<Longrightarrow> feed_inv (snd (subscribe a s))"
  by (auto simp add: feed_inv_def subscribe_def Let_def split: option.splits)

lemma feed_inv_seed_read: "feed_inv s \<Longrightarrow> feed_inv (seed_read a v s)"
  by (auto simp add: feed_inv_def seed_read_def next_to_fields split: option.splits)

lemma feed_inv_tick_key: "feed_inv s \<Longrightarrow> feed_inv (tick_key a v s)"
  by (auto simp add: feed_inv_def tick_key_def next_to_fields split: option.splits)

lemma feed_inv_tick_keys: "feed_inv s \<Longrightarrow> feed_inv (tick_keys as g s)"
  by (induction as arbitrary: s) (simp_all add: feed_inv_tick_key)

lemma feed_inv_tick: "feed_inv s \<Longrightarrow> feed_inv (tick g s)"
  by (simp add: tick_def feed_inv_tick_keys)

lemma feed_inv_subscribers_update:
  "feed_inv (s\<lparr>subscribers := xs\<rparr>) = feed_inv s"
  by (simp add: feed_inv_def)

lemma feed_inv_teardown: "feed_inv s \<Longrightarrow> feed_inv (state_of (teardown a s))"
  by (auto simp add: feed_inv_def teardown_def Let_def split: option.splits)

lemma feed_inv_unsubscribe: "feed_inv s \<Longrightarrow> feed_inv (state_of (unsubscribe h s))"
  by (simp add: unsubscribe_def feed_inv_teardown feed_inv_subscribers_update)

lemma feed_inv_error_to: "feed_inv s \<Longrightarrow> feed_inv (state_of (error_to h e s))"
  by (simp add: error_to_def feed_inv_unsubscribe feed_inv_subscribers_update)

lemma feed_inv_feed_error_keys: "feed_inv s \<Longrightarrow> feed_inv (state_of (feed_error_keys as e s))"
proof (induction as arbitrary: s)
  case Nil
  then show ?case by simp
next
  case (Cons a as)
  show ?case
  proof (cases "map_of (observedAccounts s) a")
    case None
    then show ?thesis using Cons.prems by simp
  next
    case (Some acc)
    show ?thesis
    proof (cases "observer acc")
      case None
      then show ?thesis using Some Cons.prems by simp
    next
      case (Some h)
      note h = this
      show ?thesis
      proof (cases "error_to h e s")
        case (Done s')
        then have "feed_inv s'" using feed_inv_error_to [OF Cons.prems, of h e] by simp
        then show ?thesis using Done h \<open>map_of (observedAccounts s) a = Some acc\<close>
          by (simp add: Cons.IH)
      next
        case (Threw x s')
        then have "feed_inv s'" using feed_inv_error_to [OF Cons.prems, of h e] by simp
        then show ?thesis using Threw h \<open>map_of (observedAccounts s) a = Some acc\<close>
          by simp
      qed
    qed
  qed
qed

lemma feed_inv_feed_error: "feed_inv s \<Longrightarrow> feed_inv (state_of (feed_error e s))"
  by (simp add: feed_error_def feed_inv_feed_error_keys)

lemma feed_inv_step: "feed_inv s \<Longrightarrow> feed_inv (step ev s)"
  by (cases ev)
    (simp_all add: feed_inv_ethBalance feed_inv_subscribe feed_inv_seed_read
      feed_inv_unsubscribe feed_inv_tick feed_inv_feed_error)

lemma feed_inv_run: "feed_inv s \<Longrightarrow> feed_inv (run evs s)"
  by (induction evs arbitrary: s) (simp_all add: feed_inv_step)

lemma feed_inv_init: "feed_inv init"
  by (simp add: feed_inv_def init_def)

subsection \<open>Observing and cancelling\<close>

lemma delete_append_same: "AList.delete k (al @ [(k, v)]) = AList.delete k al"
  by (simp add: AList.delete_eq)

lemma map_of_append_same: "map_of al k = None \<Longrightarrow> map_of (al @ [(k, v)]) k = Some v"
  by (simp add: map_add_def)

lemma ethBalance_effect:
  "subscribers (ethBalance k s) = subscribers s"
  "blockHeaderSubscription (ethBalance k s) = blockHeaderSubscription s"
  "web3_subscriptions (ethBalance k s) = web3_subscriptions s"
  "AList.delete k (observedAccounts (ethBalance k s)) = AList.delete k (observedAccounts s)"
  by (auto simp add: ethBalance_def Let_def delete_append_same AList.delete_update_same
      split: option.splits)

lemma ethBalance_record:
  "\<exists>a'. map_of (observedAccounts (ethBalance k s)) k = Some a' \<and> observable a'
     \<and> subscriptionsCount a' =
        (case map_of (observedAccounts s) k of
           None \<Rightarrow> 1
         | Some a \<Rightarrow> if observable a then subscriptionsCount a + 1 else subscriptionsCount a)
     \<and> lastBalance a' = (case map_of (observedAccounts s) k of None \<Rightarrow> None | Some a \<Rightarrow> lastBalance a)"
  by (auto simp add: ethBalance_def Let_def map_of_append_same AList.update_conv'
      split: option.splits)

lemma subscribe_effect:
  assumes "map_of (observedAccounts s) k = Some a"
  shows "fst (subscribe k s) = length (subscribers s)"
    and "subscribers (snd (subscribe k s)) =
           subscribers s @ [\<lparr>owner = k, received = [], closed = False\<rparr>]"
    and "blockHeaderSubscription (snd (subscribe k s))"
    and "web3_subscriptions (snd (subscribe k s)) =
           (if blockHeaderSubscription s then web3_subscriptions s else web3_subscriptions s + 1)"
    and "AList.delete k (observedAccounts (snd (subscribe k s))) = AList.delete k (observedAccounts s)"
    and "map_of (observedAccounts (snd (subscribe k s))) k =
           Some (a\<lparr>observer := Some (length (subscribers s))\<rparr>)"
  using assms
  by (simp_all add: subscribe_def Let_def AList.delete_update_same AList.update_conv')

lemma observe_effect:
  "fst (observe k s) = length (subscribers s)"
  "subscribers (snd (observe k s)) =
     subscribers s @ [\<lparr>owner = k, received = [], closed = False\<rparr>]"
  "blockHeaderSubscription (snd (observe k s))"
  "web3_subscriptions (snd (observe k s)) =
     (if blockHeaderSubscription s then web3_subscriptions s else web3_subscriptions s + 1)"
  "AList.delete k (observedAccounts (snd (observe k s))) = AList.delete k (observedAccounts s)"
proof -
  obtain a' where a': "map_of (observedAccounts (ethBalance k s)) k = Some a'"
    using ethBalance_record [of k s] by blast
  show "fst (observe k s) = length (subscribers s)"
    using subscribe_effect(1) [OF a'] by (simp add: observe_def ethBalance_effect)
  show "subscribers (snd (observe k s)) =
     subscribers s @ [\<lparr>owner = k, received = [], closed = False\<rparr>]"
    using subscribe_effect(2) [OF a'] by (simp add: observe_def ethBalance_effect)
  show "blockHeaderSubscription (snd (observe k s))"
    using subscribe_effect(3) [OF a'] by (simp add: observe_def)
  show "web3_subscriptions (snd (observe k s)) =
     (if blockHeaderSubscription s then web3_subscriptions s else web3_subscriptions s + 1)"
    using subscribe_effect(4) [OF a'] by (simp add: observe_def ethBalance_effect)
  show "AList.delete k (observedAccounts (snd (observe k s))) = AList.delete k (observedAccounts s)"
    using subscribe_effect(5) [OF a'] by (simp add: observe_def ethBalance_effect)
qed

lemma observe_record:
  "\<exists>a'. map_of (observedAccounts (snd (observe k s))) k = Some a' \<and> observable a'
     \<and> observer a' = Some (length (subscribers s))
     \<and> subscriptionsCount a' =
        (case map_of (observedAccounts s) k of
           None \<Rightarrow> 1
         | Some a \<Rightarrow> if observable a then subscriptionsCount a + 1 else subscriptionsCount a)
     \<and> lastBalance a' = (case map_of (observedAccounts s) k of None \<Rightarrow> None | Some a \<Rightarrow> lastBalance a)"
proof -
  obtain a' where a': "map_of (observedAccounts (ethBalance k s)) k = Some a'" "observable a'"
    "subscriptionsCount a' =
        (case map_of (observedAccounts s) k of
           None \<Rightarrow> 1
         | Some a \<Rightarrow> if observable a then subscriptionsCount a + 1 else subscriptionsCount a)"
    "lastBalance a' = (case map_of (observedAccounts s) k of None \<Rightarrow> None | Some a \<Rightarrow> lastBalance a)"
    using ethBalance_record [of k s] by blast
  show ?thesis
    using subscribe_effect(6) [OF a'(1)] a'(2,3,4) by (simp add: observe_def ethBalance_effect)
qed

lemma observes_Suc:
  "fst (observes (Suc n) k s) = fst (observe k s) # fst (observes n k (snd (observe k s)))"
  "snd (observes (Suc n) k s) = snd (observes n k (snd (observe k s)))"
  by (simp_all add: split_beta)

lemma observes_handles:
  "fst (observes n k s) = [length (subscribers s) ..< length (subscribers s) + n]"
proof (induction n arbitrary: s)
  case 0
  then show ?case by simp
next
  case (Suc n)
  show ?case
    by (simp only: observes_Suc Suc.IH observe_effect) (simp add: upt_rec)
qed

lemma observes_subscribers:
  "subscribers (snd (observes n k s)) =
     subscribers s @ replicate n \<lparr>owner = k, received = [], closed = False\<rparr>"
proof (induction n arbitrary: s)
  case 0
  then show ?case by simp
next
  case (Suc n)
  show ?case
    by (simp only: observes_Suc Suc.IH observe_effect) (simp add: replicate_app_Cons_same)
qed

lemma observes_others:
  "AList.delete k (observedAccounts (snd (observes n k s))) = AList.delete k (observedAccounts s)"
proof (induction n arbitrary: s)
  case 0
  then show ?case by simp
next
  case (Suc n)
  show ?case
    by (simp only: observes_Suc Suc.IH observe_effect)
qed

lemma observes_feed:
  "blockHeaderSubscription (snd (observes (Suc n) k s))
   \<and> web3_subscriptions (snd (observes (Suc n) k s)) =
       (if blockHeaderSubscription s then web3_subscriptions s else web3_subscriptions s + 1)"
proof (induction n arbitrary: s)
  case 0
  then show ?case by (simp add: split_beta observe_effect)
next
  case (Suc n)
  show ?case
    using Suc.IH [of "snd (observe k s)"]
    by (simp only: observes_Suc(2) [of "Suc n"] observe_effect) simp
qed

lemma observes_record:
  assumes "\<And>a. map_of (observedAccounts s) k = Some a \<Longrightarrow> observable a"
  shows "\<exists>a'. map_of (observedAccounts (snd (observes (Suc n) k s))) k = Some a' \<and> observable a'
     \<and> subscriptionsCount a' =
        (case map_of (observedAccounts s) k of None \<Rightarrow> 0 | Some a \<Rightarrow> subscriptionsCount a)
          + 1 + int n"
  using assms
proof (induction n arbitrary: s)
  case 0
  then show ?case
    using observe_record [of k s] by (auto simp add: split_beta split: option.splits)
next
  case (Suc n)
  obtain a1 where a1: "map_of (observedAccounts (snd (observe k s))) k = Some a1" "observable a1"
    "subscriptionsCount a1 =
        (case map_of (observedAccounts s) k of None \<Rightarrow> 0 | Some a \<Rightarrow> subscriptionsCount a) + 1"
    using observe_record [of k s] Suc.prems by (auto split: option.splits)
  have "\<exists>a'. map_of (observedAccounts (snd (observes (Suc n) k (snd (observe k s))))) k = Some a'
     \<and> observable a'
     \<and> subscriptionsCount a' =
        (case map_of (observedAccounts (snd (observe k s))) k of
           None \<Rightarrow> 0 | Some a \<Rightarrow> subscriptionsCount a) + 1 + int n"
    by (rule Suc.IH) (use a1 in simp)
  then show ?case
    using a1 by (simp only: observes_Suc(2) [of "Suc n"]) auto
qed

lemma unsubscribe_not_last:
  assumes "h < length (subscribers s)" and "\<not> closed (subscribers s ! h)"
    and "owner (subscribers s ! h) = k"
    and "map_of (observedAccounts s) k = Some a" and "1 < subscriptionsCount a"
  shows "unsubscribe h s =
     Done (s\<lparr>subscribers := (subscribers s)[h := (subscribers s ! h)\<lparr>closed := True\<rparr>],
             observedAccounts :=
               AList.update k (a\<lparr>subscriptionsCount := subscriptionsCount a - 1\<rparr>)
                 (observedAccounts s)\<rparr>)"
  using assms by (simp add: unsubscribe_def teardown_def Let_def)

lemma unsubscribe_last:
  assumes "h < length (subscribers s)" and "\<not> closed (subscribers s ! h)"
    and "owner (subscribers s ! h) = k"
    and "map_of (observedAccounts s) k = Some a" and "subscriptionsCount a \<le> 1"
  shows "\<exists>s'. unsubscribe h s = Done s'
     \<and> subscribers s' = (subscribers s)[h := (subscribers s ! h)\<lparr>closed := True\<rparr>]
     \<and> observedAccounts s' = AList.delete k (observedAccounts s)
     \<and> blockHeaderSubscription s' =
         (blockHeaderSubscription s \<and> AList.delete k (observedAccounts s) \<noteq> [])
     \<and> web3_subscriptions s' =
         (if blockHeaderSubscription s \<and> AList.delete k (observedAccounts s) = []
          then web3_subscriptions s - 1 else web3_subscriptions s)"
  using assms by (auto simp add: unsubscribe_def teardown_def Let_def)

lemma cancels_all:
  assumes "distinct (h # hs)"
    and "\<forall>x \<in> set (h # hs). x < length (subscribers s) \<and> owner (subscribers s ! x) = k
           \<and> \<not> closed (subscribers s ! x)"
    and "map_of (observedAccounts s) k = Some a"
    and "subscriptionsCount a = 1 + int (length hs)"
  shows "\<exists>s'. cancels (h # hs) s = Done s'
     \<and> observedAccounts s' = AList.delete k (observedAccounts s)
     \<and> blockHeaderSubscription s' =
         (blockHeaderSubscription s \<and> AList.delete k (observedAccounts s) \<noteq> [])
     \<and> web3_subscriptions s' =
         (if blockHeaderSubscription s \<and> AList.delete k (observedAccounts s) = []
          then web3_subscriptions s - 1 else web3_subscriptions s)"
  using assms
proof (induction hs arbitrary: h s a)
  case Nil
  then show ?case
    using unsubscribe_last [of h s k a] by auto
next
  case (Cons h' hs)
  let ?s1 = "s\<lparr>subscribers := (subscribers s)[h := (subscribers s ! h)\<lparr>closed := True\<rparr>],
             observedAccounts :=
               AList.update k (a\<lparr>subscriptionsCount := subscriptionsCount a - 1\<rparr>)
                 (observedAccounts s)\<rparr>"
  have u: "unsubscribe h s = Done ?s1"
    using Cons.prems by (intro unsubscribe_not_last) auto
  have step: "cancels (h # h' # hs) s = cancels (h' # hs) ?s1"
    using u by simp
  have "\<exists>s'. cancels (h' # hs) ?s1 = Done s'
     \<and> observedAccounts s' = AList.delete k (observedAccounts ?s1)
     \<and> blockHeaderSubscription s' =
         (blockHeaderSubscription ?s1 \<and> AList.delete k (observedAccounts ?s1) \<noteq> [])
     \<and> web3_subscriptions s' =
         (if blockHeaderSubscription ?s1 \<and> AList.delete k (observedAccounts ?s1) = []
          then web3_subscriptions ?s1 - 1 else web3_subscriptions ?s1)"
  proof (rule Cons.IH)
    show "distinct (h' # hs)" using Cons.prems(1) by simp
    show "\<forall>x\<in>set (h' # hs). x < length (subscribers ?s1) \<and> owner (subscribers ?s1 ! x) = k
           \<and> \<not> closed (subscribers ?s1 ! x)"
      using Cons.prems(1,2) by (auto simp add: nth_list_update)
    show "map_of (observedAccounts ?s1) k = Some (a\<lparr>subscriptionsCount := subscriptionsCount a - 1\<rparr>)"
      by (simp add: AList.update_conv')
    show "subscriptionsCount (a\<lparr>subscriptionsCount := subscriptionsCount a - 1\<rparr>) = 1 + int (length hs)"
      using Cons.prems(4) by simp
  qed
  then obtain s' where s': "cancels (h' # hs) ?s1 = Done s'"
    "observedAccounts s' = AList.delete k (observedAccounts ?s1)"
    "blockHeaderSubscription s' =
         (blockHeaderSubscription ?s1 \<and> AList.delete k (observedAccounts ?s1) \<noteq> [])"
    "web3_subscriptions s' =
         (if blockHeaderSubscription ?s1 \<and> AList.delete k (observedAccounts ?s1) = []
          then web3_subscriptions ?s1 - 1 else web3_subscriptions ?s1)"
    by blast
  have d: "AList.delete k (observedAccounts ?s1) = AList.delete k (observedAccounts s)"
    by (simp add: AList.delete_update_same)
  show ?case
    unfolding step using s' d by simp
qed

lemma observes_then_cancels:
  assumes inv: "feed_inv s" and fresh: "map_of (observedAccounts s) k = None"
  shows "\<exists>hs s1 s2. observes (Suc m) k s = (hs, s1) \<and> length hs = Suc m
     \<and> blockHeaderSubscription s1 \<and> web3_subscriptions s1 = 1
     \<and> (\<exists>a. map_of (observedAccounts s1) k = Some a \<and> subscriptionsCount a = int (Suc m))
     \<and> cancels hs s1 = Done s2
     \<and> map_of (observedAccounts s2) k = None
     \<and> observedAccounts s2 = observedAccounts s
     \<and> (observedAccounts s = [] \<longrightarrow> \<not> blockHeaderSubscription s2 \<and> web3_subscriptions s2 = 0)"
proof -
  let ?L = "length (subscribers s)"
  let ?s1 = "snd (observes (Suc m) k s)"
  let ?hs = "fst (observes (Suc m) k s)"
  have hs: "?hs = ?L # [Suc ?L ..< ?L + Suc m]"
    by (simp only: observes_handles) (simp add: upt_rec)
  have subs: "subscribers ?s1 =
      subscribers s @ replicate (Suc m) \<lparr>owner = k, received = [], closed = False\<rparr>"
    by (rule observes_subscribers)
  have feed: "blockHeaderSubscription ?s1" and w1: "web3_subscriptions ?s1 = 1"
    using observes_feed [of m k s] inv by (auto simp add: feed_inv_def)
  obtain a where a: "map_of (observedAccounts ?s1) k = Some a"
    "subscriptionsCount a = 1 + int m"
    using observes_record [of s k m] fresh by auto
  have others: "AList.delete k (observedAccounts ?s1) = observedAccounts s"
  proof -
    have "k \<notin> fst ` set (observedAccounts s)"
      using fresh by (simp add: map_of_eq_None_iff)
    then have "AList.delete k (observedAccounts s) = observedAccounts s"
      by (rule AList.delete_id)
    moreover have "AList.delete k (observedAccounts ?s1) = AList.delete k (observedAccounts s)"
      by (rule observes_others)
    ultimately show ?thesis
      by (rule back_subst [where P = "\<lambda>x. AList.delete k (observedAccounts ?s1) = x", rotated])
  qed
  have valid: "\<forall>x \<in> set (?L # [Suc ?L ..< ?L + Suc m]).
      x < length (subscribers ?s1) \<and> owner (subscribers ?s1 ! x) = k
        \<and> \<not> closed (subscribers ?s1 ! x)"
    unfolding subs by (auto simp add: nth_append nth_Cons')
  have "\<exists>s'. cancels (?L # [Suc ?L ..< ?L + Suc m]) ?s1 = Done s'
     \<and> observedAccounts s' = AList.delete k (observedAccounts ?s1)
     \<and> blockHeaderSubscription s' =
         (blockHeaderSubscription ?s1 \<and> AList.delete k (observedAccounts ?s1) \<noteq> [])
     \<and> web3_subscriptions s' =
         (if blockHeaderSubscription ?s1 \<and> AList.delete k (observedAccounts ?s1) = []
          then web3_subscriptions ?s1 - 1 else web3_subscriptions ?s1)"
  proof (rule cancels_all [OF _ valid a(1)])
    show "distinct (?L # [Suc ?L ..< ?L + Suc m])" by simp
    show "subscriptionsCount a = 1 + int (length [Suc ?L ..< ?L + Suc m])"
      using a(2) by simp
  qed
  then obtain s2 where s2: "cancels ?hs ?s1 = Done s2"
    "observedAccounts s2 = observedAccounts s"
    "blockHeaderSubscription s2 = (observedAccounts s \<noteq> [])"
    "web3_subscriptions s2 = (if observedAccounts s = [] then 0 else 1)"
    unfolding hs [symmetric] others using feed w1 by auto
  have len: "length ?hs = Suc m"
    by (simp only: observes_handles) simp
  have rec: "\<exists>a. map_of (observedAccounts ?s1) k = Some a \<and> subscriptionsCount a = int (Suc m)"
    using a by auto
  have gone: "map_of (observedAccounts s2) k = None"
    using s2(2) fresh by simp
  have stopped: "observedAccounts s = [] \<longrightarrow>
      \<not> blockHeaderSubscription s2 \<and> web3_subscriptions s2 = 0"
    using s2(3,4) by simp
  show ?thesis
    using len rec gone stopped feed w1 s2(1,2)
    by (intro exI [of _ "?hs"] exI [of _ "?s1"] exI [of _ s2]) (simp del: observes.simps)
qed

lemma at_most_one:
  "web3_subscriptions (run evs init) \<le> 1
     \<and> (blockHeaderSubscription (run evs init) \<longleftrightarrow> web3_subscriptions (run evs init) = 1)
     \<and> (observedAccounts (run evs init) = [] \<longrightarrow> web3_subscriptions (run evs init) = 0)"
  using feed_inv_run [OF feed_inv_init, of evs] by (auto simp add: feed_inv_def)

text \<open>
  Claim C5. At most one block header subscription is open at any time, in every state
  that the operations reach. From a state without a record for account \<open>k\<close>, after
  \<open>n > 0\<close> observations of \<open>k\<close> the subscription exists and the record counts \<open>n\<close>
  subscriptions; after the \<open>n\<close> handles are cancelled the record of \<open>k\<close> is gone, the
  other records are as before, and when \<open>k\<close> was the only account the block header
  subscription is unsubscribed and forgotten.
\<close>

theorem single_feed_and_refcount_teardown:
  assumes "feed_inv s" and "map_of (observedAccounts s) k = None" and "0 < n"
  shows "(\<forall>evs. web3_subscriptions (run evs init) \<le> 1
            \<and> (blockHeaderSubscription (run evs init) \<longleftrightarrow> web3_subscriptions (run evs init) = 1)
            \<and> (observedAccounts (run evs init) = [] \<longrightarrow> web3_subscriptions (run evs init) = 0))
    \<and> (\<exists>hs s1 s2. observes n k s = (hs, s1) \<and> length hs = n
          \<and> blockHeaderSubscription s1 \<and> web3_subscriptions s1 = 1
          \<and> (\<exists>a. map_of (observedAccounts s1) k = Some a \<and> subscriptionsCount a = int n)
          \<and> cancels hs s1 = Done s2
          \<and> map_of (observedAccounts s2) k = None
          \<and> observedAccounts s2 = observedAccounts s
          \<and> (observedAccounts s = [] \<longrightarrow>
                \<not> blockHeaderSubscription s2 \<and> web3_subscriptions s2 = 0))"
proof -
  obtain m where m: "n = Suc m"
    using assms(3) by (cases n) auto
  show ?thesis
    unfolding m using observes_then_cancels [OF assms(1,2), of m] at_most_one by blast
qed

theorem single_feed_and_refcount_teardown_witness:
  "feed_inv init \<and> map_of (observedAccounts init) ''0xa'' = None \<and> (0::nat) < 3
   \<and> (\<exists>hs s1 s2. observes 3 ''0xa'' init = (hs, s1) \<and> length hs = 3
          \<and> blockHeaderSubscription s1 \<and> web3_subscriptions s1 = 1
          \<and> (\<exists>a. map_of (observedAccounts s1) ''0xa'' = Some a \<and> subscriptionsCount a = int 3)
          \<and> cancels hs s1 = Done s2
          \<and> observedAccounts s2 = []
          \<and> \<not> blockHeaderSubscription s2 \<and> web3_subscriptions s2 = 0)"
proof -
  have h1: "feed_inv init"
    by (simp add: feed_inv_def init_def)
  have h2: "map_of (observedAccounts init) ''0xa'' = None"
    by (simp add: init_def)
  have h3: "(0::nat) < 3"
    by simp
  have h4: "observedAccounts init = []"
    by (simp add: init_def)
  show ?thesis
    using single_feed_and_refcount_teardown [OF h1 h2 h3] h1 h2 h3 unfolding h4 by blast
qed

subsection \<open>A subscriber that joins late\<close>





subsection \<open>Ticks\<close>

lemma tick_key_unchanged:
  assumes "map_of (observedAccounts s) k = Some a" and "lastBalance a = Some v"
  shows "tick_key k v s = s"
  using assms by (simp add: tick_key_def)

lemma tick_key_changed:
  assumes "map_of (observedAccounts s) k = Some a" and "lastBalance a \<noteq> Some v"
    and "observer a = Some h" and "h < length (subscribers s)"
    and "\<not> closed (subscribers s ! h)"
  shows "tick_key k v s =
     s\<lparr>subscribers := (subscribers s)
          [h := (subscribers s ! h)\<lparr>received := received (subscribers s ! h) @ [Next v]\<rparr>],
       observedAccounts := AList.update k (a\<lparr>lastBalance := Some v\<rparr>) (observedAccounts s)\<rparr>"
  using assms by (auto simp add: tick_key_def next_to_def)

lemma remdups_adj_head: "remdups_adj (v # vs) = v # tl (remdups_adj (v # vs))"
  by (cases vs) simp_all

lemma map_remdups_adj_head:
  "f v # map f (tl (remdups_adj (v # vs))) = map f (remdups_adj (v # vs))"
proof -
  have "map f (remdups_adj (v # vs)) = map f (v # tl (remdups_adj (v # vs)))"
    by (rule arg_cong [OF remdups_adj_head])
  also have "\<dots> = f v # map f (tl (remdups_adj (v # vs)))"
    by (simp only: list.map)
  finally show ?thesis
    by (rule sym)
qed

lemma ticks_single:
  assumes "observedAccounts s = [(k, a)]" and "observer a = Some h"
    and "h < length (subscribers s)" and "\<not> closed (subscribers s ! h)"
    and "lastBalance a = Some l"
  shows "received (subscribers (ticks vs s) ! h) =
           received (subscribers s ! h) @ map Next (tl (remdups_adj (l # vs)))"
  using assms
proof (induction vs arbitrary: s a l)
  case Nil
  then show ?case by simp
next
  case (Cons v vs)
  have m: "map_of (observedAccounts s) k = Some a"
    using Cons.prems(1) by simp
  have t: "tick (\<lambda>addr. v) s = tick_key k v s"
    using Cons.prems(1) by (simp add: tick_def)
  show ?case
  proof (cases "v = l")
    case True
    then have "tick (\<lambda>addr. v) s = s"
      using t tick_key_unchanged [OF m] Cons.prems(5) by simp
    then show ?thesis
      using Cons.IH [OF Cons.prems] True by simp
  next
    case False
    let ?s1 = "s\<lparr>subscribers := (subscribers s)
          [h := (subscribers s ! h)\<lparr>received := received (subscribers s ! h) @ [Next v]\<rparr>],
       observedAccounts := AList.update k (a\<lparr>lastBalance := Some v\<rparr>) (observedAccounts s)\<rparr>"
    have s1: "tick (\<lambda>addr. v) s = ?s1"
      unfolding t using False Cons.prems by (intro tick_key_changed [OF m]) auto
    have "received (subscribers (ticks vs ?s1) ! h) =
           received (subscribers ?s1 ! h) @ map Next (tl (remdups_adj (v # vs)))"
    proof (rule Cons.IH)
      show "observedAccounts ?s1 = [(k, a\<lparr>lastBalance := Some v\<rparr>)]"
        using Cons.prems(1) by simp
      show "observer (a\<lparr>lastBalance := Some v\<rparr>) = Some h"
        using Cons.prems(2) by simp
      show "h < length (subscribers ?s1)"
        using Cons.prems(3) by simp
      show "\<not> closed (subscribers ?s1 ! h)"
        using Cons.prems(3,4) by simp
      show "lastBalance (a\<lparr>lastBalance := Some v\<rparr>) = Some v"
        by simp
    qed
    then have "received (subscribers (ticks (v # vs) s) ! h) =
        received (subscribers s ! h) @ (Next v # map Next (tl (remdups_adj (v # vs))))"
      using s1 Cons.prems(3) by simp
    also have "Next v # map Next (tl (remdups_adj (v # vs))) = map Next (remdups_adj (v # vs))"
      by (rule map_remdups_adj_head)
    also have "remdups_adj (v # vs) = tl (remdups_adj (l # v # vs))"
      using False by simp
    finally show ?thesis .
  qed
qed

text \<open>
  A single listener of a single account receives the seed value and then the values of
  the ticks, each value that repeats its predecessor left out.
\<close>

lemma single_listener_dedup:
  "received (subscribers (ticks vs (seed_read k v0 (snd (observe k init)))) ! 0) =
     map Next (remdups_adj (v0 # vs))"
proof -
  let ?s = "seed_read k v0 (snd (observe k init))"
  have s: "?s = \<lparr>observedAccounts =
        [(k, \<lparr>observable = True, observer = Some 0, lastBalance = Some v0,
              subscriptionsCount = 1\<rparr>)],
      blockHeaderSubscription = True,
      subscribers = [\<lparr>owner = k, received = [Next v0], closed = False\<rparr>],
      web3_subscriptions = 1\<rparr>"
    by (simp add: observe_def ethBalance_def subscribe_def seed_read_def next_to_def init_def
        Let_def)
  have "received (subscribers (ticks vs ?s) ! 0) =
      received (subscribers ?s ! 0) @ map Next (tl (remdups_adj (v0 # vs)))"
    by (rule ticks_single [where k = k and l = v0 and
          a = "\<lparr>observable = True, observer = Some 0, lastBalance = Some v0,
              subscriptionsCount = 1\<rparr>"]) (simp_all add: s)
  moreover have "received (subscribers ?s ! 0) = [Next v0]"
    by (simp add: s)
  ultimately have "received (subscribers (ticks vs ?s) ! 0) =
      Next v0 # map Next (tl (remdups_adj (v0 # vs)))"
    by simp
  also have "\<dots> = map Next (remdups_adj (v0 # vs))"
    by (rule map_remdups_adj_head)
  finally show ?thesis .
qed

lemma single_listener_example:
  "received (subscribers (ticks [5, 5, 7, 7, 7, 9] (seed_read k 3 (snd (observe k init)))) ! 0) =
     [Next 3, Next 5, Next 7, Next 9]"
  "received (subscribers (ticks [5, 5, 7, 7, 7, 9] (seed_read k 5 (snd (observe k init)))) ! 0) =
     [Next 5, Next 7, Next 9]"
  by (simp_all only: single_listener_dedup) simp_all

lemma two_listeners_eq:
  "two_listeners =
     \<lparr>observedAccounts =
        [(''0xa'', \<lparr>observable = True, observer = Some 1, lastBalance = Some 1,
                    subscriptionsCount = 2\<rparr>)],
      blockHeaderSubscription = True,
      subscribers =
        [\<lparr>owner = ''0xa'', received = [Next 1], closed = False\<rparr>,
         \<lparr>owner = ''0xa'', received = [Next 1], closed = False\<rparr>],
      web3_subscriptions = 1\<rparr>"
  by (simp add: two_listeners_def observe_def ethBalance_def subscribe_def seed_read_def
      next_to_def init_def Let_def)

text \<open>
  Claim C4. On a tick every registered account is read afresh, and the value is
  emitted to the listeners of the account exactly when it differs from the stored last
  balance, which is then updated; with the reads \<open>5, 5, 7, 7, 7, 9\<close> the listeners
  receive \<open>5, 7, 9\<close> after the seed value. The code keeps a single observer per record,
  which every subscription overwrites: with two listeners of one account (both seeded
  with 1) the ticks reach the later listener only, and the earlier one, still
  subscribed, is left with its seed value.
\<close>

theorem tick_passes_by_earlier_listener:
  "subscribers (ticks [5, 5, 7, 7, 7, 9] two_listeners) =
     [\<lparr>owner = ''0xa'', received = [Next 1], closed = False\<rparr>,
      \<lparr>owner = ''0xa'', received = [Next 1, Next 5, Next 7, Next 9], closed = False\<rparr>]"
  by (simp add: two_listeners_eq tick_def tick_key_def next_to_def)

subsection \<open>Failure of the block header subscription\<close>

lemma feed_error_single_listeners:
  "feed_error ''connection lost'' two_accounts =
     Done \<lparr>observedAccounts = [], blockHeaderSubscription = False,
           subscribers =
             [\<lparr>owner = ''0xa'', received = [Next 1, Error ''connection lost''], closed = True\<rparr>,
              \<lparr>owner = ''0xb'', received = [Next 2, Error ''connection lost''], closed = True\<rparr>],
           web3_subscriptions = 0\<rparr>"
  by (simp add: two_accounts_def observe_def ethBalance_def subscribe_def seed_read_def
      next_to_def init_def feed_error_def error_to_def unsubscribe_def teardown_def Let_def)

text \<open>
  Claim C8. When the block header subscription fails, the error goes to the listeners
  of every registered account and the subscription is torn down. With one listener per
  account the code does so (each listener is unsubscribed by the error, which empties
  the registry). With two listeners of one account the error reaches the later
  listener only: the earlier one receives nothing and stays subscribed, the record
  stays with count 1, and the block header subscription stays open.
\<close>

theorem feed_error_passes_by_earlier_listener:
  "state_of (feed_error ''connection lost'' two_listeners) =
     \<lparr>observedAccounts =
        [(''0xa'', \<lparr>observable = True, observer = Some 1, lastBalance = Some 1,
                    subscriptionsCount = 1\<rparr>)],
      blockHeaderSubscription = True,
      subscribers =
        [\<lparr>owner = ''0xa'', received = [Next 1], closed = False\<rparr>,
         \<lparr>owner = ''0xa'', received = [Next 1, Error ''connection lost''], closed = True\<rparr>],
      web3_subscriptions = 1\<rparr>"
  by (simp add: two_listeners_eq feed_error_def error_to_def unsubscribe_def teardown_def Let_def)

end
